theory Spec2Isabelle
  imports Main "HOL-Library.Word" "HOL-Library.List_Lexorder"
begin

unbundle bit_operations_syntax

section \<open>Data model of server/peer.go\<close>

text \<open>
  Go byte slices and Go strings are sequences of bytes.  A public key is a
  \<^verbatim>\<open>*[ed25519.PublicKeySize]byte\<close>, an array of 32 bytes; the model
  writes it as a byte list and states the length where it matters.
\<close>

type_synonym bytes = "8 word list"
type_synonym gostring = "8 word list"

definition PublicKeySize :: nat where
  "PublicKeySize = 32"

text \<open>
  Error values.  \<^verbatim>\<open>ErrPeerNotFound\<close> and \<^verbatim>\<open>ErrNoStorageForPeer\<close> are the
  two package-level variables of the file; the code compares against them by
  identity.  \<open>ErrorsNew s\<close> is an error made in place by \<^verbatim>\<open>errors.New(s)\<close>.
  \<open>ProtoErr\<close> carries an error returned by \<^verbatim>\<open>proto.Unmarshal\<close> or
  \<^verbatim>\<open>proto.Marshal\<close>, \<open>BoltErr\<close> one returned by bolt's \<^verbatim>\<open>Put\<close>.
  \<open>Panic\<close> is not a returned error: it stands for a run-time panic of the
  goroutine (an index out of range in \<^verbatim>\<open>binary.BigEndian.Uint32\<close>).
  \<open>StorageErr\<close> is any other error of \<^verbatim>\<open>app.openStorage\<close>.
  The last two constructors name the failures of the transport handshake.
\<close>

datatype error =
    ErrPeerNotFound
  | ErrNoStorageForPeer
  | ErrorsNew string
  | ProtoErr string
  | BoltErr string
  | StorageErr string
  | Panic string
  | HandshakeIdentityMismatch
  | DialErr string

text \<open>\<^verbatim>\<open>peer.Peer\<close>: the identity record handed to callers.\<close>

record peer =
  ID :: "32 word"
  Pub :: bytes

subsection \<open>The bolt store\<close>

text \<open>
  A bolt bucket is a B+tree: its entries are kept in ascending bytewise order
  of their keys (\<^verbatim>\<open>bytes.Compare\<close>, which is the lexicographic order of
  byte lists with a proper prefix first).  The model is the in-order listing
  of the tree.
\<close>

type_synonym bucket = "(bytes \<times> bytes) list"

definition bucket_Get :: "bucket \<Rightarrow> bytes \<Rightarrow> bytes option" where
  "bucket_Get b k = map_of b k"

definition MaxKeySize :: nat where
  "MaxKeySize = 32768"

definition MaxValueSize :: nat where
  "MaxValueSize = 2 ^ 31 - 2"

fun put_sorted :: "bytes \<Rightarrow> bytes \<Rightarrow> bucket \<Rightarrow> bucket" where
  "put_sorted k v [] = [(k, v)]"
| "put_sorted k v ((k', v') # es) =
     (if k < k' then (k, v) # (k', v') # es
      else if k = k' then (k, v) # es
      else (k', v') # put_sorted k v es)"

text \<open>\<^verbatim>\<open>Bucket.Put\<close> in a writable transaction, with bolt's three checks.\<close>

definition bucket_Put :: "bucket \<Rightarrow> bytes \<Rightarrow> bytes \<Rightarrow> error + bucket" where
  "bucket_Put b k v =
     (if length k = 0 then Inl (BoltErr ''key required'')
      else if length k > MaxKeySize then Inl (BoltErr ''key too large'')
      else if length v > MaxValueSize then Inl (BoltErr ''value too large'')
      else Inr (put_sorted k v b))"

text \<open>\<^verbatim>\<open>Cursor.Last\<close>: the entry with the greatest key, nil on an empty bucket.\<close>

definition cursor_Last :: "bucket \<Rightarrow> (bytes \<times> bytes) option" where
  "cursor_Last b = (if b = [] then None else Some (last b))"

text \<open>
  The four buckets the file uses: \<^verbatim>\<open>tokens.BucketPeer\<close> (public key to
  encoded \<^verbatim>\<open>wire.Peer\<close>), \<^verbatim>\<open>tokens.BucketPeerID\<close> (big-endian id to public key),
  \<^verbatim>\<open>tokens.BucketPeerAddr\<close> (public key to address) and
  \<^verbatim>\<open>tokens.BucketPeerStorage\<close> (public key to encoded \<^verbatim>\<open>wire.PeerStorage\<close>).
  The database is open and the buckets exist, as the application creates them
  when it starts.
\<close>

record db =
  bucketPeer :: bucket
  bucketPeerID :: bucket
  bucketPeerAddr :: bucket
  bucketPeerStorage :: bucket

definition empty_db :: db where
  "empty_db = \<lparr>bucketPeer = [], bucketPeerID = [], bucketPeerAddr = [], bucketPeerStorage = []\<rparr>"

text \<open>
  \<^verbatim>\<open>DB.View\<close> runs its function on a read-only snapshot and returns what it
  returns.  \<^verbatim>\<open>DB.Update\<close> commits the transaction when the function returns
  nil and rolls it back when it returns an error (or panics).
\<close>

definition DB_View :: "(db \<Rightarrow> error + 'a) \<Rightarrow> db \<Rightarrow> error + 'a" where
  "DB_View fn d = fn d"

definition DB_Update :: "(db \<Rightarrow> (error + 'a) \<times> db) \<Rightarrow> db \<Rightarrow> (error + 'a) \<times> db" where
  "DB_Update fn d =
     (case fn d of
        (Inl err, tx) \<Rightarrow> (Inl err, d)
      | (Inr r, tx) \<Rightarrow> (Inr r, tx))"

subsection \<open>encoding/binary, big endian\<close>

text \<open>
  \<^verbatim>\<open>binary.BigEndian.Uint32(b)\<close> reads the first four bytes and panics on a
  shorter slice; \<^verbatim>\<open>binary.BigEndian.PutUint32\<close> fills a four-byte array.
\<close>

fun Uint32 :: "bytes \<Rightarrow> 32 word option" where
  "Uint32 (b0 # b1 # b2 # b3 # _) =
     Some (ucast b3 OR push_bit 8 (ucast b2) OR push_bit 16 (ucast b1) OR push_bit 24 (ucast b0))"
| "Uint32 _ = None"

definition PutUint32 :: "32 word \<Rightarrow> bytes" where
  "PutUint32 v = [ucast (drop_bit 24 v), ucast (drop_bit 16 v), ucast (drop_bit 8 v), ucast v]"

subsection \<open>The wire messages\<close>

text \<open>
  The generated messages \<^verbatim>\<open>wire.Peer\<close> (one field, \<^verbatim>\<open>Id uint32\<close>) and
  \<^verbatim>\<open>wire.PeerStorage\<close> (a map \<^verbatim>\<open>Backends\<close> keyed by backend name) and their
  protobuf encoding are parameters of the model.  A decoded
  \<^verbatim>\<open>wire.PeerStorage\<close> is the list of the keys of \<^verbatim>\<open>Backends\<close> in the order
  in which the \<^verbatim>\<open>range\<close> statement of this run visits them.
\<close>

record codec =
  Unmarshal_Peer :: "bytes \<Rightarrow> string + 32 word"
  Marshal_Peer :: "32 word \<Rightarrow> string + bytes"
  Unmarshal_PeerStorage :: "bytes \<Rightarrow> string + gostring list"

section \<open>The peer registry\<close>

definition findPeer :: "codec \<Rightarrow> db \<Rightarrow> bytes \<Rightarrow> error + peer" where
  "findPeer c tx pub =
     (case bucket_Get (bucketPeer tx) pub of
        None \<Rightarrow> Inl ErrPeerNotFound
      | Some val \<Rightarrow>
          (case Unmarshal_Peer c val of
             Inl err \<Rightarrow> Inl (ProtoErr err)
           | Inr msg_Id \<Rightarrow> Inr \<lparr>ID = msg_Id, Pub = pub\<rparr>))"

definition GetPeer :: "codec \<Rightarrow> db \<Rightarrow> bytes \<Rightarrow> error + peer" where
  "GetPeer c d pub = DB_View (\<lambda>tx. findPeer c tx pub) d"

text \<open>
  The closure \<^verbatim>\<open>getOrMake\<close> of \<^verbatim>\<open>MakePeer\<close>.  It returns the outcome and
  the state of its transaction, which \<^verbatim>\<open>DB.Update\<close> keeps or discards.
\<close>

definition getOrMake :: "codec \<Rightarrow> bytes \<Rightarrow> db \<Rightarrow> (error + peer) \<times> db" where
  "getOrMake c pub tx =
     (case findPeer c tx pub of
        Inr p \<Rightarrow> (Inr p, tx)
      | Inl err \<Rightarrow>
          if err \<noteq> ErrPeerNotFound then (Inl err, tx)
          else
            (case (case cursor_Last (bucketPeerID tx) of
                     None \<Rightarrow> Some 0
                   | Some (k, _) \<Rightarrow> Uint32 k) of
               None \<Rightarrow> (Inl (Panic ''index out of range''), tx)
             | Some last_id \<Rightarrow>
                 let id = last_id + 1 in
                 if id = 0 then (Inl (ErrorsNew ''out of peer IDs''), tx)
                 else
                   (case bucket_Put (bucketPeerID tx) (PutUint32 id) pub of
                      Inl err \<Rightarrow> (Inl err, tx)
                    | Inr idBucket \<Rightarrow>
                        let tx1 = tx\<lparr>bucketPeerID := idBucket\<rparr> in
                        (case Marshal_Peer c id of
                           Inl err \<Rightarrow> (Inl (ProtoErr err), tx1)
                         | Inr buf \<Rightarrow>
                             (case bucket_Put (bucketPeer tx1) pub buf of
                                Inl err \<Rightarrow> (Inl err, tx1)
                              | Inr bucket \<Rightarrow>
                                  (Inr \<lparr>ID = id, Pub = pub\<rparr>, tx1\<lparr>bucketPeer := bucket\<rparr>))))))"

definition MakePeer :: "codec \<Rightarrow> db \<Rightarrow> bytes \<Rightarrow> (error + peer) \<times> db" where
  "MakePeer c d pub =
     (case GetPeer c d pub of
        Inr p \<Rightarrow> (Inr p, d)
      | Inl err \<Rightarrow>
          if err \<noteq> ErrPeerNotFound then (Inl err, d)
          else DB_Update (getOrMake c pub) d)"

section \<open>The storage resolver\<close>

text \<open>
  The loop of \<^verbatim>\<open>OpenKVForPeer\<close> over the backends: it appends every opened
  store and returns at the first error.  \<^verbatim>\<open>app.openStorage\<close> and
  \<^verbatim>\<open>kvmulti.New\<close> are parameters.
\<close>

fun open_backends :: "(gostring \<Rightarrow> error + 'kv) \<Rightarrow> gostring list \<Rightarrow> 'kv list \<Rightarrow> error + 'kv list" where
  "open_backends openStorage [] kvstores = Inr kvstores"
| "open_backends openStorage (backend # rest) kvstores =
     (case openStorage backend of
        Inl err \<Rightarrow> Inl err
      | Inr s \<Rightarrow> open_backends openStorage rest (kvstores @ [s]))"

definition find_storage :: "codec \<Rightarrow> bytes \<Rightarrow> db \<Rightarrow> error + gostring list" where
  "find_storage c pub tx =
     (case bucket_Get (bucketPeerStorage tx) pub of
        None \<Rightarrow> Inl ErrNoStorageForPeer
      | Some val \<Rightarrow>
          (case Unmarshal_PeerStorage c val of
             Inl err \<Rightarrow> Inl (ProtoErr err)
           | Inr msg_Backends \<Rightarrow> Inr msg_Backends))"

definition OpenKVForPeer ::
  "codec \<Rightarrow> (gostring \<Rightarrow> error + 'kv) \<Rightarrow> ('kv list \<Rightarrow> 'kv) \<Rightarrow> db \<Rightarrow> bytes \<Rightarrow> error + 'kv" where
  "OpenKVForPeer c openStorage kvmulti_New d pub =
     (case DB_View (find_storage c pub) d of
        Inl err \<Rightarrow> Inl err
      | Inr msg_Backends \<Rightarrow>
          (case open_backends openStorage msg_Backends [] of
             Inl err \<Rightarrow> Inl err
           | Inr kvstores \<Rightarrow> Inr (kvmulti_New kvstores)))"

section \<open>The connection establisher\<close>

definition gostr :: "string \<Rightarrow> gostring" where
  "gostr s = map of_char s"

text \<open>
  The closure \<^verbatim>\<open>lookup\<close> of \<^verbatim>\<open>DialPeer\<close>, over the database and the public
  key dialled.  It keeps the network it is given, replaces the address by the
  one stored for the key, and returns the key itself as the identity the far
  end has to prove.
\<close>

definition find_addr :: "bytes \<Rightarrow> db \<Rightarrow> error + gostring" where
  "find_addr pub tx =
     (case bucket_Get (bucketPeerAddr tx) pub of
        None \<Rightarrow> Inl (ErrorsNew ''no address known for peer'')
      | Some val \<Rightarrow> Inr val)"

definition lookup :: "db \<Rightarrow> bytes \<Rightarrow> gostring \<Rightarrow> gostring \<Rightarrow> error + (gostring \<times> gostring \<times> bytes)" where
  "lookup d pub network addr =
     (case DB_View (find_addr pub) d of
        Inl err \<Rightarrow> Inl err
      | Inr addr' \<Rightarrow> Inr (network, addr', pub))"

text \<open>\<^verbatim>\<open>grpcedtls.Authenticator\<close>, as \<^verbatim>\<open>DialPeer\<close> fills it.\<close>

record 'cfg Authenticator =
  Config :: 'cfg
  Lookup :: "gostring \<Rightarrow> gostring \<Rightarrow> error + (gostring \<times> gostring \<times> bytes)"

text \<open>
  What answers at a network address: nothing within the connect timeout, a
  far end whose TLS handshake fails, or a far end that completes it and
  presents a public key.
\<close>

datatype remote = NoAnswer | HandshakeFails string | Presents bytes

type_synonym network = "gostring \<Rightarrow> gostring \<Rightarrow> remote"

text \<open>\<^verbatim>\<open>grpc.ClientConn\<close>: an established connection, with the key it authenticated.\<close>

record ClientConn =
  remote_network :: gostring
  remote_addr :: gostring
  remote_key :: bytes

text \<open>
  Modelled from the spec: \<^verbatim>\<open>grpc.Dial\<close> with the credential
  \<^verbatim>\<open>grpcedtls.Authenticator\<close>; neither the package util/grpcedtls of this
  repository nor grpc is among the sources.  Section 4.3 of the specification
  gives the steps of one dial attempt, Resolving, Handshaking, then
  Authenticated or Failed: the credential's lookup function turns the nominal
  address into the resolved address and the expected public key, and a failure
  there is a hard dial error; the connection is opened with a bounded timeout;
  after the cryptographic validation the presented key is compared with the
  expected one byte for byte, and a mismatch fails the handshake.  There is no
  retry.  The second component of the result lists the network connections
  attempted, in order.
\<close>

definition grpc_Dial ::
  "network \<Rightarrow> 'cfg Authenticator \<Rightarrow> gostring \<Rightarrow> (error + ClientConn) \<times> (gostring \<times> gostring) list" where
  "grpc_Dial net auth target =
     (case Lookup auth (gostr ''tcp'') target of
        Inl err \<Rightarrow> (Inl err, [])
      | Inr (network, addr, expected) \<Rightarrow>
          (case net network addr of
             NoAnswer \<Rightarrow> (Inl (DialErr ''timeout''), [(network, addr)])
           | HandshakeFails reason \<Rightarrow> (Inl (DialErr reason), [(network, addr)])
           | Presents key \<Rightarrow>
               if key = expected
               then (Inr \<lparr>remote_network = network, remote_addr = addr, remote_key = key\<rparr>,
                     [(network, addr)])
               else (Inl HandshakeIdentityMismatch, [(network, addr)])))"

text \<open>\<^verbatim>\<open>peerClient\<close>: the generated RPC client and the connection it closes.\<close>

record 'rpc peerClient =
  PeerClient :: 'rpc
  conn :: ClientConn

text \<open>
  \<^verbatim>\<open>DialPeer\<close>.  \<^verbatim>\<open>app.GetTLSConfig\<close> and \<^verbatim>\<open>wirepeer.NewPeerClient\<close> are
  parameters.
\<close>

definition DialPeer ::
  "'cfg \<Rightarrow> (ClientConn \<Rightarrow> 'rpc) \<Rightarrow> network \<Rightarrow> db \<Rightarrow> bytes
     \<Rightarrow> (error + 'rpc peerClient) \<times> (gostring \<times> gostring) list" where
  "DialPeer GetTLSConfig NewPeerClient net d pub =
     (let auth = \<lparr>Config = GetTLSConfig, Lookup = lookup d pub\<rparr> in
      case grpc_Dial net auth (gostr ''placeholder.bazil.org.invalid.:443'') of
        (Inl err, attempts) \<Rightarrow> (Inl err, attempts)
      | (Inr cc, attempts) \<Rightarrow> (Inr \<lparr>PeerClient = NewPeerClient cc, conn = cc\<rparr>, attempts))"

section \<open>Properties of the store, as the specification words them\<close>

text \<open>A bucket lists its keys in strictly ascending order.\<close>

definition bucket_sorted :: "bucket \<Rightarrow> bool" where
  "bucket_sorted b = sorted_wrt (<) (map fst b)"

text \<open>The ids of the id-index: its keys read as big-endian numbers.\<close>

definition index_ids :: "bucket \<Rightarrow> 32 word list" where
  "index_ids b = List.map_filter (\<lambda>(k, _). Uint32 k) b"

text \<open>Every key of the id-index is a four-byte id, as \<^verbatim>\<open>MakePeer\<close> writes them.\<close>

definition index_keys_ok :: "bucket \<Rightarrow> bool" where
  "index_keys_ok b = list_all (\<lambda>(k, _). length k = 4) b"

text \<open>The numerically largest id of the id-index, 0 when there is none.\<close>

definition max_id :: "db \<Rightarrow> 32 word" where
  "max_id d =
     (if index_ids (bucketPeerID d) = [] then 0 else Max (set (index_ids (bucketPeerID d))))"

text \<open>The id carried by the stored identity record of a public key.\<close>

definition record_id :: "codec \<Rightarrow> db \<Rightarrow> bytes \<Rightarrow> 32 word option" where
  "record_id c d pub =
     (case bucket_Get (bucketPeer d) pub of
        None \<Rightarrow> None
      | Some val \<Rightarrow> (case Unmarshal_Peer c val of Inl _ \<Rightarrow> None | Inr i \<Rightarrow> Some i))"

text \<open>
  The two indexes in lockstep: every entry of the id-index is an id and the
  public key whose record carries that id, and every identity record decodes
  to an id that the id-index maps back to its public key.
\<close>

definition lockstep :: "codec \<Rightarrow> db \<Rightarrow> bool" where
  "lockstep c d =
     (bucket_sorted (bucketPeerID d) \<and> bucket_sorted (bucketPeer d) \<and>
      list_all (\<lambda>(k, pub). case Uint32 k of
                   None \<Rightarrow> False
                 | Some i \<Rightarrow> k = PutUint32 i \<and> record_id c d pub = Some i) (bucketPeerID d) \<and>
      list_all (\<lambda>(pub, val). case Unmarshal_Peer c val of
                   Inl _ \<Rightarrow> False
                 | Inr i \<Rightarrow> bucket_Get (bucketPeerID d) (PutUint32 i) = Some pub) (bucketPeer d))"

text \<open>What a codec has to do for a record written to be read back.\<close>

definition codec_roundtrip :: "codec \<Rightarrow> bool" where
  "codec_roundtrip c = (\<forall>i buf. Marshal_Peer c i = Inr buf \<longrightarrow> Unmarshal_Peer c buf = Inr i)"

subsection \<open>Sample data\<close>

text \<open>
  A codec to run the model on: an id as four big-endian bytes, a storage
  binding as one byte per backend name.  Two public keys, an address and a
  backend opener that knows a single backend.
\<close>

definition fixed_codec :: codec where
  "fixed_codec =
     \<lparr>Unmarshal_Peer = (\<lambda>b. case Uint32 b of None \<Rightarrow> Inl ''unexpected EOF'' | Some i \<Rightarrow> Inr i),
      Marshal_Peer = (\<lambda>i. Inr (PutUint32 i)),
      Unmarshal_PeerStorage = (\<lambda>b. Inr (map (\<lambda>x. [x]) b))\<rparr>"

definition A_PK :: bytes where
  "A_PK = replicate 32 1"

definition B_PK :: bytes where
  "B_PK = replicate 32 2"

definition one_backend :: "gostring \<Rightarrow> error + nat" where
  "one_backend name = (if name = [1] then Inr 7 else Inl (StorageErr ''no such backend''))"

text \<open>The store after \<^verbatim>\<open>A_PK\<close> has been registered with id 1.\<close>

definition db_A :: db where
  "db_A = \<lparr>bucketPeer = [(A_PK, PutUint32 1)], bucketPeerID = [(PutUint32 1, A_PK)],
           bucketPeerAddr = [], bucketPeerStorage = []\<rparr>"

text \<open>The same store with a storage binding of two backends, and with an empty one.\<close>

definition db_S :: db where
  "db_S = db_A\<lparr>bucketPeerStorage := [(A_PK, [1, 2])]\<rparr>"

definition db_E :: db where
  "db_E = db_A\<lparr>bucketPeerStorage := [(A_PK, [])]\<rparr>"

text \<open>The store of \<^verbatim>\<open>db_A\<close> with an address on file for \<^verbatim>\<open>A_PK\<close>.\<close>

definition db_addr :: db where
  "db_addr = db_A\<lparr>bucketPeerAddr := [(A_PK, gostr ''192.0.2.1:443'')]\<rparr>"

text \<open>A store whose id-index ends at the largest 32-bit id.\<close>

definition db_full :: db where
  "db_full = \<lparr>bucketPeer = [(A_PK, PutUint32 (- 1))], bucketPeerID = [(PutUint32 (- 1), A_PK)],
              bucketPeerAddr = [], bucketPeerStorage = []\<rparr>"

section \<open>Facts about the store and the encoding\<close>

lemma map_of_put_sorted: "map_of (put_sorted k v b) = (map_of b)(k \<mapsto> v)"
  by (induction b) (auto simp add: fun_upd_twist)

lemma bucket_Get_put_sorted:
  "bucket_Get (put_sorted k v b) k' = (if k' = k then Some v else bucket_Get b k')"
  by (simp add: bucket_Get_def map_of_put_sorted)

lemma keys_put_sorted: "fst ` set (put_sorted k v b) = insert k (fst ` set b)"
  by (simp add: dom_map_of_conv_image_fst [symmetric] map_of_put_sorted)

lemma set_put_sorted: "set (put_sorted k v b) \<subseteq> insert (k, v) (set b)"
  by (induction b) (auto split: if_splits)

lemma sorted_put_sorted:
  assumes "bucket_sorted b"
  shows "bucket_sorted (put_sorted k v b)"
  using assms unfolding bucket_sorted_def
proof (induction b)
  case Nil
  then show ?case by simp
next
  case (Cons e es)
  obtain k' v' where e: "e = (k', v')" by (cases e)
  show ?case
  proof (cases "k < k'")
    case True
    with Cons.prems e show ?thesis by (auto intro: less_trans)
  next
    case False
    show ?thesis
    proof (cases "k = k'")
      case True
      with Cons.prems e show ?thesis by auto
    next
      case neq: False
      with False have "k' < k" by simp
      moreover have "sorted_wrt (<) (map fst (put_sorted k v es))"
        using Cons by simp
      ultimately show ?thesis
        using Cons.prems e False neq by (auto simp add: keys_put_sorted)
    qed
  qed
qed

lemma bucket_sorted_distinct: "bucket_sorted b \<Longrightarrow> distinct (map fst b)"
  by (simp add: bucket_sorted_def strict_sorted_iff)

lemma bucket_Get_iff:
  "bucket_sorted b \<Longrightarrow> bucket_Get b k = Some v \<longleftrightarrow> (k, v) \<in> set b"
  by (simp add: bucket_Get_def bucket_sorted_distinct)

lemma last_key_greatest:
  fixes b :: bucket
  assumes "bucket_sorted b" and "e \<in> set b"
  shows "fst e \<le> fst (last b)"
  using assms unfolding bucket_sorted_def
proof (induction b)
  case Nil
  then show ?case by simp
next
  case (Cons x xs)
  show ?case
  proof (cases "xs = []")
    case True
    with Cons.prems show ?thesis by simp
  next
    case False
    then have l: "last (x # xs) = last xs" by simp
    have m: "last xs \<in> set xs" using False by simp
    show ?thesis
    proof (cases "e = x")
      case True
      with Cons.prems m l show ?thesis by (auto intro: less_imp_le)
    next
      case False
      with Cons l show ?thesis by auto
    qed
  qed
qed

lemma Uint32_PutUint32: "Uint32 (PutUint32 w) = Some w"
proof -
  have "ucast (ucast w :: 8 word) OR push_bit 8 (ucast (ucast (drop_bit 8 w) :: 8 word))
        OR push_bit 16 (ucast (ucast (drop_bit 16 w) :: 8 word))
        OR push_bit 24 (ucast (ucast (drop_bit 24 w) :: 8 word)) = w"
  proof (rule bit_word_eqI)
    fix n assume "n < LENGTH(32)"
    then have n: "n < 32" by simp
    consider "n < 8" | "8 \<le> n" "n < 16" | "16 \<le> n" "n < 24" | "24 \<le> n"
      by linarith
    then show "bit (ucast (ucast w :: 8 word) OR push_bit 8 (ucast (ucast (drop_bit 8 w) :: 8 word))
        OR push_bit 16 (ucast (ucast (drop_bit 16 w) :: 8 word))
        OR push_bit 24 (ucast (ucast (drop_bit 24 w) :: 8 word)) :: 32 word) n = bit w n"
      using n by cases (auto simp add: bit_simps)
  qed
  then show ?thesis by (simp add: PutUint32_def)
qed

lemma PutUint32_inject:
  assumes "PutUint32 i = PutUint32 j"
  shows "i = j"
proof -
  have "Some i = Uint32 (PutUint32 i)" by (simp only: Uint32_PutUint32)
  also have "\<dots> = Uint32 (PutUint32 j)" by (simp only: assms)
  also have "\<dots> = Some j" by (simp only: Uint32_PutUint32)
  finally show ?thesis by simp
qed

lemma length_PutUint32: "length (PutUint32 w) = 4"
  by (simp add: PutUint32_def)

lemma or_bytes_eq_add:
  fixes a b c d :: "8 word"
  shows "(ucast d OR push_bit 8 (ucast c) OR push_bit 16 (ucast b) OR push_bit 24 (ucast a) :: 32 word)
       = ucast d + push_bit 8 (ucast c) + push_bit 16 (ucast b) + push_bit 24 (ucast a)"
proof -
  have 1: "(ucast d :: 32 word) AND push_bit 8 (ucast c) = 0"
    by (rule bit_word_eqI) (auto simp add: bit_simps dest: bit_imp_le_length)
  have 2: "(ucast d + push_bit 8 (ucast c) :: 32 word) = ucast d OR push_bit 8 (ucast c)"
    by (rule disjunctive_add_eq_or [OF 1])
  have 3: "(ucast d OR push_bit 8 (ucast c) :: 32 word) AND push_bit 16 (ucast b) = 0"
    by (rule bit_word_eqI) (auto simp add: bit_simps dest: bit_imp_le_length)
  have 4: "(ucast d OR push_bit 8 (ucast c) OR push_bit 16 (ucast b) :: 32 word) AND push_bit 24 (ucast a) = 0"
    by (rule bit_word_eqI) (auto simp add: bit_simps dest: bit_imp_le_length)
  show ?thesis
    using disjunctive_add_eq_or [OF 3] disjunctive_add_eq_or [OF 4] 2
    by (simp add: or.assoc)
qed

lemma byte_bound: "unat (x :: 8 word) < 256"
  using unsigned_less [of x, where ?'a = nat] by simp

lemma unat_or_bytes:
  fixes a b c d :: "8 word"
  shows "unat (ucast d OR push_bit 8 (ucast c) OR push_bit 16 (ucast b) OR push_bit 24 (ucast a) :: 32 word)
   = unat d + 256 * unat c + 65536 * unat b + 16777216 * unat a"
proof -
  let ?N = "unat d + 256 * unat c + 65536 * unat b + 16777216 * unat a"
  have lt: "?N < 2 ^ 32"
    using byte_bound [of a] byte_bound [of b] byte_bound [of c] byte_bound [of d] by simp
  have eq: "(ucast d + push_bit 8 (ucast c) + push_bit 16 (ucast b) + push_bit 24 (ucast a) :: 32 word) = of_nat ?N"
    by (simp add: push_bit_eq_mult)
  have "unat (of_nat ?N :: 32 word) = ?N"
    using lt by (simp only: unat_of_nat) simp
  then show ?thesis
    by (simp only: or_bytes_eq_add eq)
qed

text \<open>On four-byte keys the bytewise order of bolt is the numeric order of the ids.\<close>

lemma Uint32_le:
  assumes "[a, b, c, d] \<le> [a', b', c', d']"
    and "Uint32 [a, b, c, d] = Some i" and "Uint32 [a', b', c', d'] = Some j"
  shows "i \<le> j"
proof -
  have "unat d + 256 * unat c + 65536 * unat b + 16777216 * unat a
      \<le> unat d' + 256 * unat c' + 65536 * unat b' + 16777216 * unat a'"
    using assms(1) byte_bound [of b] byte_bound [of c] byte_bound [of d]
      byte_bound [of b'] byte_bound [of c'] byte_bound [of d']
    by (auto simp add: word_less_nat_alt word_le_nat_alt)
  moreover have "unat i = unat d + 256 * unat c + 65536 * unat b + 16777216 * unat a"
    using assms(2) unat_or_bytes [of d c b a] by auto
  moreover have "unat j = unat d' + 256 * unat c' + 65536 * unat b' + 16777216 * unat a'"
    using assms(3) unat_or_bytes [of d' c' b' a'] by auto
  ultimately show ?thesis
    by (simp only: word_le_nat_alt)
qed

lemma length4_cases:
  assumes "length (k :: bytes) = 4"
  obtains a b c d where "k = [a, b, c, d]"
  using assms by (auto simp add: length_Suc_conv numeral_eq_Suc)

lemma key_le_id_le:
  assumes "length k = 4" and "length k' = 4" and "k \<le> k'"
    and "Uint32 k = Some i" and "Uint32 k' = Some j"
  shows "i \<le> j"
proof -
  obtain a b c d where k: "k = [a, b, c, d]" using assms(1) by (rule length4_cases)
  obtain a' b' c' d' where k': "k' = [a', b', c', d']" using assms(2) by (rule length4_cases)
  show ?thesis
    using assms(3-5) unfolding k k' by (rule Uint32_le)
qed

subsection \<open>The loop over the backends\<close>

lemma open_backends_Inl:
  "open_backends openStorage backends kvstores = Inl err \<Longrightarrow> \<exists>b\<in>set backends. openStorage b = Inl err"
  by (induction backends arbitrary: kvstores) (auto split: sum.splits)

lemma open_backends_first_failure:
  "find (\<lambda>b. isl (openStorage b)) backends = Some b \<Longrightarrow>
     open_backends openStorage backends kvstores = Inl (projl (openStorage b))"
  by (induction backends arbitrary: kvstores) (auto split: sum.splits if_splits)

lemma find_failing_backend:
  assumes "\<exists>b\<in>set backends. isl (openStorage b)"
  obtains b where "find (\<lambda>b. isl (openStorage b)) backends = Some b"
  using assms by (cases "find (\<lambda>b. isl (openStorage b)) backends") (auto simp add: find_None_iff)

lemma OpenKVForPeer_bound:
  "bucket_Get (bucketPeerStorage d) pub = Some val \<Longrightarrow> Unmarshal_PeerStorage c val = Inr backends \<Longrightarrow>
     OpenKVForPeer c openStorage kvmulti_New d pub =
       (case open_backends openStorage backends [] of
          Inl err \<Rightarrow> Inl err
        | Inr kvstores \<Rightarrow> Inr (kvmulti_New kvstores))"
  by (simp add: OpenKVForPeer_def DB_View_def find_storage_def)

lemma OpenKVForPeer_unbound:
  "bucket_Get (bucketPeerStorage d) pub = None \<Longrightarrow>
     OpenKVForPeer c openStorage kvmulti_New d pub = Inl ErrNoStorageForPeer"
  by (simp add: OpenKVForPeer_def DB_View_def find_storage_def)

subsection \<open>Dialling\<close>

lemma A_PK_neq_B_PK: "A_PK \<noteq> B_PK"
  by (simp add: A_PK_def B_PK_def)

lemma lookup_unbound:
  "bucket_Get (bucketPeerAddr d) pub = None \<Longrightarrow>
     lookup d pub network addr = Inl (ErrorsNew ''no address known for peer'')"
  by (simp add: lookup_def DB_View_def find_addr_def)

lemma lookup_bound:
  "bucket_Get (bucketPeerAddr d) pub = Some val \<Longrightarrow> lookup d pub network addr = Inr (network, val, pub)"
  by (simp add: lookup_def DB_View_def find_addr_def)

lemma DialPeer_bound:
  "bucket_Get (bucketPeerAddr d) pub = Some val \<Longrightarrow>
     DialPeer GetTLSConfig NewPeerClient net d pub =
       (case net (gostr ''tcp'') val of
          NoAnswer \<Rightarrow> (Inl (DialErr ''timeout''), [(gostr ''tcp'', val)])
        | HandshakeFails reason \<Rightarrow> (Inl (DialErr reason), [(gostr ''tcp'', val)])
        | Presents key \<Rightarrow>
            if key = pub
            then (Inr \<lparr>PeerClient = NewPeerClient
                         \<lparr>remote_network = gostr ''tcp'', remote_addr = val, remote_key = key\<rparr>,
                       conn = \<lparr>remote_network = gostr ''tcp'', remote_addr = val, remote_key = key\<rparr>\<rparr>,
                  [(gostr ''tcp'', val)])
            else (Inl HandshakeIdentityMismatch, [(gostr ''tcp'', val)]))"
  by (simp add: DialPeer_def grpc_Dial_def lookup_bound split: remote.splits)

lemma DialPeer_unbound:
  "bucket_Get (bucketPeerAddr d) pub = None \<Longrightarrow>
     DialPeer GetTLSConfig NewPeerClient net d pub = (Inl (ErrorsNew ''no address known for peer''), [])"
  by (simp add: DialPeer_def grpc_Dial_def lookup_unbound)

subsection \<open>Allocation of ids\<close>

lemma set_index_ids: "set (index_ids b) = {i. \<exists>e\<in>set b. Uint32 (fst e) = Some i}"
  by (induction b) (auto simp add: index_ids_def split: option.splits)

lemma index_keys_okD: "index_keys_ok b \<Longrightarrow> e \<in> set b \<Longrightarrow> length (fst e) = 4"
  by (auto simp add: index_keys_ok_def list_all_iff)

lemma Uint32_length4: "length k = 4 \<Longrightarrow> \<exists>i. Uint32 k = Some i"
  by (erule length4_cases) simp

lemma last_key_is_max_id:
  assumes s: "bucket_sorted b" and k: "index_keys_ok b" and ne: "b \<noteq> []"
  shows "index_ids b \<noteq> [] \<and> Uint32 (fst (last b)) = Some (Max (set (index_ids b)))"
proof -
  have l: "last b \<in> set b" using ne by simp
  then obtain m where m: "Uint32 (fst (last b)) = Some m"
    using Uint32_length4 [OF index_keys_okD [OF k l]] by blast
  have mem: "m \<in> set (index_ids b)"
    using l m by (auto simp add: set_index_ids)
  have le: "i \<le> m" if "i \<in> set (index_ids b)" for i
  proof -
    from that obtain e where e: "e \<in> set b" "Uint32 (fst e) = Some i"
      by (auto simp add: set_index_ids)
    show ?thesis
      using index_keys_okD [OF k e(1)] index_keys_okD [OF k l] last_key_greatest [OF s e(1)] e(2) m
      by (rule key_le_id_le)
  qed
  have "Max (set (index_ids b)) = m"
    using mem le by (intro Max_eqI) auto
  with mem m show ?thesis by auto
qed

lemma last_id_is_max_id:
  assumes "bucket_sorted (bucketPeerID d)" and "index_keys_ok (bucketPeerID d)"
  shows "(case cursor_Last (bucketPeerID d) of None \<Rightarrow> Some 0 | Some (k, _) \<Rightarrow> Uint32 k) = Some (max_id d)"
proof (cases "bucketPeerID d = []")
  case True
  then show ?thesis by (simp add: cursor_Last_def max_id_def index_ids_def)
next
  case False
  from last_key_is_max_id [OF assms False] False show ?thesis
    by (cases "last (bucketPeerID d)") (simp add: cursor_Last_def max_id_def)
qed

lemma MakePeer_found:
  "bucket_Get (bucketPeer d) pub = Some val \<Longrightarrow> Unmarshal_Peer c val = Inr i \<Longrightarrow>
     MakePeer c d pub = (Inr \<lparr>ID = i, Pub = pub\<rparr>, d)"
  by (simp add: MakePeer_def GetPeer_def DB_View_def findPeer_def)

lemma MakePeer_create:
  assumes "bucket_sorted (bucketPeerID d)" and "index_keys_ok (bucketPeerID d)"
    and "bucket_Get (bucketPeer d) pub = None"
  shows "MakePeer c d pub =
     (if max_id d + 1 = 0 then (Inl (ErrorsNew ''out of peer IDs''), d)
      else
        (case bucket_Put (bucketPeerID d) (PutUint32 (max_id d + 1)) pub of
           Inl err \<Rightarrow> (Inl err, d)
         | Inr idBucket \<Rightarrow>
             (case Marshal_Peer c (max_id d + 1) of
                Inl err \<Rightarrow> (Inl (ProtoErr err), d)
              | Inr buf \<Rightarrow>
                  (case bucket_Put (bucketPeer d) pub buf of
                     Inl err \<Rightarrow> (Inl err, d)
                   | Inr bucket \<Rightarrow>
                       (Inr \<lparr>ID = max_id d + 1, Pub = pub\<rparr>,
                        d\<lparr>bucketPeerID := idBucket, bucketPeer := bucket\<rparr>)))))"
proof -
  have f: "findPeer c d pub = Inl ErrPeerNotFound"
    using assms(3) by (simp add: findPeer_def)
  have g: "getOrMake c pub d =
     (if max_id d + 1 = 0 then (Inl (ErrorsNew ''out of peer IDs''), d)
      else
        (case bucket_Put (bucketPeerID d) (PutUint32 (max_id d + 1)) pub of
           Inl err \<Rightarrow> (Inl err, d)
         | Inr idBucket \<Rightarrow>
             (case Marshal_Peer c (max_id d + 1) of
                Inl err \<Rightarrow> (Inl (ProtoErr err), d\<lparr>bucketPeerID := idBucket\<rparr>)
              | Inr buf \<Rightarrow>
                  (case bucket_Put (bucketPeer d) pub buf of
                     Inl err \<Rightarrow> (Inl err, d\<lparr>bucketPeerID := idBucket\<rparr>)
                   | Inr bucket \<Rightarrow>
                       (Inr \<lparr>ID = max_id d + 1, Pub = pub\<rparr>,
                        d\<lparr>bucketPeerID := idBucket, bucketPeer := bucket\<rparr>)))))"
    unfolding getOrMake_def f last_id_is_max_id [OF assms(1,2)]
    by (simp add: Let_def split: sum.splits)
  show ?thesis
    unfolding MakePeer_def GetPeer_def DB_View_def f DB_Update_def g
    by (simp split: sum.splits)
qed

lemma MakePeer_create_ok:
  assumes "bucket_sorted (bucketPeerID d)" and "index_keys_ok (bucketPeerID d)"
    and "bucket_Get (bucketPeer d) pub = None"
    and "max_id d + 1 \<noteq> 0" and "length pub = PublicKeySize"
    and "Marshal_Peer c (max_id d + 1) = Inr buf" and "length buf \<le> MaxValueSize"
  shows "MakePeer c d pub =
     (Inr \<lparr>ID = max_id d + 1, Pub = pub\<rparr>,
      d\<lparr>bucketPeerID := put_sorted (PutUint32 (max_id d + 1)) pub (bucketPeerID d),
        bucketPeer := put_sorted pub buf (bucketPeer d)\<rparr>)"
  unfolding MakePeer_create [OF assms(1-3)]
  using assms(4-7)
  by (simp add: bucket_Put_def length_PutUint32 PublicKeySize_def MaxKeySize_def MaxValueSize_def)

lemma MakePeer_create_cases:
  assumes "bucket_sorted (bucketPeerID d)" and "index_keys_ok (bucketPeerID d)"
    and "bucket_Get (bucketPeer d) pub = None"
  shows "(fst (MakePeer c d pub) = Inl (ErrorsNew ''out of peer IDs'') \<longleftrightarrow> max_id d + 1 = 0) \<and>
         (\<forall>p. fst (MakePeer c d pub) = Inr p \<longrightarrow> p = \<lparr>ID = max_id d + 1, Pub = pub\<rparr>)"
  unfolding MakePeer_create [OF assms]
  by (auto simp add: bucket_Put_def split: sum.splits)

lemma bucket_sorted_single: "bucket_sorted [(k, v)]"
  by (simp add: bucket_sorted_def)

lemma max_id_single: "bucketPeerID d = [(PutUint32 i, pub)] \<Longrightarrow> max_id d = i"
  by (simp add: max_id_def index_ids_def Uint32_PutUint32)

lemma index_keys_ok_single: "index_keys_ok [(PutUint32 i, pub)]"
  by (simp add: index_keys_ok_def length_PutUint32)

lemma two_registrations:
  assumes len: "length A = PublicKeySize" "length B = PublicKeySize" and ne: "A \<noteq> B"
    and m1: "Marshal_Peer c 1 = Inr buf1" "length buf1 \<le> MaxValueSize"
    and m2: "Marshal_Peer c 2 = Inr buf2" "length buf2 \<le> MaxValueSize"
    and u1: "Unmarshal_Peer c buf1 = Inr 1"
  shows "fst (MakePeer c empty_db A) = Inr \<lparr>ID = 1, Pub = A\<rparr> \<and>
         fst (MakePeer c (snd (MakePeer c empty_db A)) B) = Inr \<lparr>ID = 2, Pub = B\<rparr> \<and>
         fst (MakePeer c (snd (MakePeer c (snd (MakePeer c empty_db A)) B)) A) = Inr \<lparr>ID = 1, Pub = A\<rparr>"
proof -
  let ?d1 = "empty_db\<lparr>bucketPeerID := [(PutUint32 1, A)], bucketPeer := [(A, buf1)]\<rparr>"
  have e: "max_id empty_db = 0"
    by (simp add: max_id_def index_ids_def empty_db_def)
  have r1: "MakePeer c empty_db A = (Inr \<lparr>ID = 1, Pub = A\<rparr>, ?d1)"
    using MakePeer_create_ok [of empty_db A c buf1] len(1) m1
    by (simp add: e) (simp add: empty_db_def bucket_sorted_def index_keys_ok_def bucket_Get_def)
  have i1: "max_id ?d1 = 1"
    by (rule max_id_single) simp
  let ?d2 = "?d1\<lparr>bucketPeerID := put_sorted (PutUint32 2) B [(PutUint32 1, A)],
                  bucketPeer := put_sorted B buf2 [(A, buf1)]\<rparr>"
  have n: "bucket_Get (bucketPeer ?d1) B = None"
    using ne by (simp add: bucket_Get_def)
  have r2: "MakePeer c ?d1 B = (Inr \<lparr>ID = 2, Pub = B\<rparr>, ?d2)"
    using MakePeer_create_ok [of ?d1 B c buf2] len(2) m2 n
    by (simp add: i1 bucket_sorted_single index_keys_ok_single)
  have g: "bucket_Get (bucketPeer ?d2) A = Some buf1"
    using ne by (simp add: bucket_Get_put_sorted) (simp add: bucket_Get_def)
  have r3: "MakePeer c ?d2 A = (Inr \<lparr>ID = 1, Pub = A\<rparr>, ?d2)"
    using g u1 by (rule MakePeer_found)
  show ?thesis
    by (simp only: r1 r2 r3 fst_conv snd_conv simp_thms)
qed

subsection \<open>The two indexes in lockstep\<close>

lemma next_id_fresh:
  fixes i m :: "32 word"
  assumes "m + 1 \<noteq> 0" and "i \<le> m"
  shows "i \<noteq> m + 1"
proof -
  have "1 + m \<noteq> 0" using assms(1) by (simp add: add.commute)
  then have "unat (1 + m) = Suc (unat m)" by (rule unatSuc)
  then have "unat (m + 1) = Suc (unat m)" by (simp add: add.commute)
  moreover have "unat i \<le> unat m" using assms(2) by (simp add: word_le_nat_alt)
  ultimately show ?thesis by auto
qed

lemma index_id_le_max:
  assumes "bucket_Get (bucketPeerID d) (PutUint32 i) = Some pk"
  shows "i \<le> max_id d"
proof -
  have "(PutUint32 i, pk) \<in> set (bucketPeerID d)"
    using assms by (auto simp add: bucket_Get_def dest: map_of_SomeD)
  then have m: "i \<in> set (index_ids (bucketPeerID d))"
    by (auto simp add: set_index_ids Uint32_PutUint32 intro!: bexI [where x = "(PutUint32 i, pk)"])
  then have "index_ids (bucketPeerID d) \<noteq> []" by auto
  with m show ?thesis by (simp add: max_id_def)
qed

lemma index_entry_iff:
  "(case Uint32 k of None \<Rightarrow> False | Some i \<Rightarrow> k = PutUint32 i \<and> R i) \<longleftrightarrow>
     (\<exists>i. k = PutUint32 i \<and> R i)"
proof
  assume "case Uint32 k of None \<Rightarrow> False | Some i \<Rightarrow> k = PutUint32 i \<and> R i"
  then show "\<exists>i. k = PutUint32 i \<and> R i"
    by (cases "Uint32 k") auto
next
  assume "\<exists>i. k = PutUint32 i \<and> R i"
  then obtain i where "k = PutUint32 i" "R i" by blast
  then show "case Uint32 k of None \<Rightarrow> False | Some i \<Rightarrow> k = PutUint32 i \<and> R i"
    by (simp add: Uint32_PutUint32)
qed

lemma record_entry_iff:
  "(case U of Inl _ \<Rightarrow> False | Inr i \<Rightarrow> P i) \<longleftrightarrow> (\<exists>i. U = Inr i \<and> P i)"
  by (cases U) auto

lemma lockstep_iff:
  "lockstep c d \<longleftrightarrow>
     bucket_sorted (bucketPeerID d) \<and> bucket_sorted (bucketPeer d) \<and>
     (\<forall>k pk. (k, pk) \<in> set (bucketPeerID d) \<longrightarrow>
        (\<exists>i. k = PutUint32 i \<and> record_id c d pk = Some i)) \<and>
     (\<forall>pk val. (pk, val) \<in> set (bucketPeer d) \<longrightarrow>
        (\<exists>i. Unmarshal_Peer c val = Inr i \<and> bucket_Get (bucketPeerID d) (PutUint32 i) = Some pk))"
  unfolding lockstep_def list_all_iff index_entry_iff record_entry_iff
  by auto

lemma lockstep_index_keys_ok:
  assumes "lockstep c d"
  shows "index_keys_ok (bucketPeerID d)"
proof -
  have "length k = 4" if "(k, pk) \<in> set (bucketPeerID d)" for k pk
  proof -
    from assms that obtain i where "k = PutUint32 i"
      unfolding lockstep_iff by blast
    then show ?thesis by (simp add: length_PutUint32)
  qed
  then show ?thesis
    unfolding index_keys_ok_def list_all_iff by auto
qed

lemma lockstep_empty_db: "lockstep c empty_db"
  by (simp add: lockstep_def empty_db_def bucket_sorted_def)

lemma record_id_put:
  "record_id c (d\<lparr>bucketPeerID := idBucket, bucketPeer := put_sorted pub buf (bucketPeer d)\<rparr>) pk =
     (if pk = pub then (case Unmarshal_Peer c buf of Inl _ \<Rightarrow> None | Inr i \<Rightarrow> Some i)
      else record_id c d pk)"
  by (simp add: record_id_def bucket_Get_put_sorted)

lemma lockstep_insert:
  assumes l: "lockstep c d" and n: "bucket_Get (bucketPeer d) pub = None"
    and w: "max_id d + 1 \<noteq> 0" and u: "Unmarshal_Peer c buf = Inr (max_id d + 1)"
  shows "lockstep c (d\<lparr>bucketPeerID := put_sorted (PutUint32 (max_id d + 1)) pub (bucketPeerID d),
                        bucketPeer := put_sorted pub buf (bucketPeer d)\<rparr>)"
    (is "lockstep c ?d'")
proof -
  let ?id = "max_id d + 1"
  from l have s: "bucket_sorted (bucketPeerID d)" "bucket_sorted (bucketPeer d)"
    and a: "\<And>k pk. (k, pk) \<in> set (bucketPeerID d) \<Longrightarrow> \<exists>i. k = PutUint32 i \<and> record_id c d pk = Some i"
    and b: "\<And>pk val. (pk, val) \<in> set (bucketPeer d) \<Longrightarrow>
              \<exists>i. Unmarshal_Peer c val = Inr i \<and> bucket_Get (bucketPeerID d) (PutUint32 i) = Some pk"
    unfolding lockstep_iff by blast+
  have a': "\<exists>i. k = PutUint32 i \<and> record_id c ?d' pk = Some i"
    if m: "(k, pk) \<in> set (put_sorted (PutUint32 ?id) pub (bucketPeerID d))" for k pk
  proof (cases "(k, pk) = (PutUint32 ?id, pub)")
    case True
    then show ?thesis using u by (simp add: record_id_put)
  next
    case False
    with m set_put_sorted [of "PutUint32 ?id" pub "bucketPeerID d"]
    have old: "(k, pk) \<in> set (bucketPeerID d)" by auto
    from a [OF old] obtain i where i: "k = PutUint32 i" "record_id c d pk = Some i" by blast
    from i(2) n have "pk \<noteq> pub" by (auto simp add: record_id_def)
    with i show ?thesis by (simp add: record_id_put)
  qed
  have b': "\<exists>i. Unmarshal_Peer c val = Inr i \<and>
              bucket_Get (put_sorted (PutUint32 ?id) pub (bucketPeerID d)) (PutUint32 i) = Some pk"
    if m: "(pk, val) \<in> set (put_sorted pub buf (bucketPeer d))" for pk val
  proof (cases "(pk, val) = (pub, buf)")
    case True
    then show ?thesis using u by (simp add: bucket_Get_put_sorted)
  next
    case False
    with m set_put_sorted [of pub buf "bucketPeer d"]
    have old: "(pk, val) \<in> set (bucketPeer d)" by auto
    from b [OF old] obtain i where i: "Unmarshal_Peer c val = Inr i"
      "bucket_Get (bucketPeerID d) (PutUint32 i) = Some pk" by blast
    have "i \<noteq> ?id"
      using w index_id_le_max [OF i(2)] by (rule next_id_fresh)
    then have "PutUint32 i \<noteq> PutUint32 ?id"
      using PutUint32_inject by blast
    with i show ?thesis by (simp add: bucket_Get_put_sorted)
  qed
  show ?thesis
    unfolding lockstep_iff
    using sorted_put_sorted [OF s(1)] sorted_put_sorted [OF s(2)] a' b'
    by simp
qed

lemma MakePeer_lockstep:
  assumes r: "codec_roundtrip c" and l: "lockstep c d"
  shows "lockstep c (snd (MakePeer c d pub))"
proof (cases "bucket_Get (bucketPeer d) pub")
  case (Some val)
  then have "snd (MakePeer c d pub) = d"
    by (simp add: MakePeer_def GetPeer_def DB_View_def findPeer_def split: sum.splits)
  with l show ?thesis by simp
next
  case None
  from l have s: "bucket_sorted (bucketPeerID d)" unfolding lockstep_iff by blast
  note eq = MakePeer_create [OF s lockstep_index_keys_ok [OF l] None, of c]
  show ?thesis
  proof (cases "max_id d + 1 = 0")
    case True
    with eq l show ?thesis by simp
  next
    case w: False
    show ?thesis
    proof (cases "bucket_Put (bucketPeerID d) (PutUint32 (max_id d + 1)) pub")
      case (Inl err)
      with eq w l show ?thesis by simp
    next
      case p1: (Inr idBucket)
      then have ib: "idBucket = put_sorted (PutUint32 (max_id d + 1)) pub (bucketPeerID d)"
        by (auto simp add: bucket_Put_def split: if_splits)
      show ?thesis
      proof (cases "Marshal_Peer c (max_id d + 1)")
        case (Inl err)
        with eq w p1 l show ?thesis by simp
      next
        case m: (Inr buf)
        with r have u: "Unmarshal_Peer c buf = Inr (max_id d + 1)"
          by (simp add: codec_roundtrip_def)
        show ?thesis
        proof (cases "bucket_Put (bucketPeer d) pub buf")
          case (Inl err)
          with eq w p1 m l show ?thesis by simp
        next
          case p2: (Inr bucket)
          then have pb: "bucket = put_sorted pub buf (bucketPeer d)"
            by (auto simp add: bucket_Put_def split: if_splits)
          from eq w p1 m p2 have "snd (MakePeer c d pub) = d\<lparr>bucketPeerID := idBucket, bucketPeer := bucket\<rparr>"
            by simp
          with lockstep_insert [OF l None w u] ib pb show ?thesis by simp
        qed
      qed
    qed
  qed
qed

lemma lockstep_bijection:
  assumes l: "lockstep c d"
  shows "(\<forall>i pk. bucket_Get (bucketPeerID d) (PutUint32 i) = Some pk \<longleftrightarrow> record_id c d pk = Some i) \<and>
         (\<forall>k pk. bucket_Get (bucketPeerID d) k = Some pk \<longrightarrow> (\<exists>i. k = PutUint32 i))"
proof -
  from l have s: "bucket_sorted (bucketPeerID d)" "bucket_sorted (bucketPeer d)"
    and a: "\<And>k pk. (k, pk) \<in> set (bucketPeerID d) \<Longrightarrow> \<exists>i. k = PutUint32 i \<and> record_id c d pk = Some i"
    and b: "\<And>pk val. (pk, val) \<in> set (bucketPeer d) \<Longrightarrow>
              \<exists>i. Unmarshal_Peer c val = Inr i \<and> bucket_Get (bucketPeerID d) (PutUint32 i) = Some pk"
    unfolding lockstep_iff by blast+
  have 1: "record_id c d pk = Some i" if "bucket_Get (bucketPeerID d) (PutUint32 i) = Some pk" for i pk
  proof -
    from that have "(PutUint32 i, pk) \<in> set (bucketPeerID d)"
      by (simp add: bucket_Get_iff [OF s(1)])
    from a [OF this] obtain j where "PutUint32 i = PutUint32 j" "record_id c d pk = Some j" by blast
    then show ?thesis using PutUint32_inject by blast
  qed
  have 2: "bucket_Get (bucketPeerID d) (PutUint32 i) = Some pk" if "record_id c d pk = Some i" for i pk
  proof -
    from that obtain val where v: "bucket_Get (bucketPeer d) pk = Some val" "Unmarshal_Peer c val = Inr i"
      by (auto simp add: record_id_def split: option.splits sum.splits)
    from v(1) have "(pk, val) \<in> set (bucketPeer d)"
      by (simp add: bucket_Get_iff [OF s(2)])
    from b [OF this] v(2) show ?thesis by auto
  qed
  have 3: "\<exists>i. k = PutUint32 i" if "bucket_Get (bucketPeerID d) k = Some pk" for k pk
  proof -
    from that have "(k, pk) \<in> set (bucketPeerID d)"
      by (simp add: bucket_Get_iff [OF s(1)])
    from a [OF this] show ?thesis by blast
  qed
  from 1 2 3 show ?thesis by blast
qed

section \<open>The claims\<close>

text \<open>
  C8.  When the stored bytes of an identity record fail to decode,
  \<^verbatim>\<open>findPeer\<close> and \<^verbatim>\<open>GetPeer\<close> return the decode error itself: it is not
  \<^verbatim>\<open>ErrPeerNotFound\<close>, and no record is returned in its place
\<close>

theorem C8_decode_error_is_returned:
  "bucket_Get (bucketPeer d) pub = Some val \<Longrightarrow> Unmarshal_Peer c val = Inl err \<Longrightarrow>
     findPeer c d pub = Inl (ProtoErr err) \<and> GetPeer c d pub = Inl (ProtoErr err) \<and>
     GetPeer c d pub \<noteq> Inl ErrPeerNotFound \<and> (\<forall>p. GetPeer c d pub \<noteq> Inr p)"
  by (simp add: GetPeer_def DB_View_def findPeer_def)

theorem C8_decode_error_is_returned_witness:
  "bucket_Get (bucketPeer (empty_db\<lparr>bucketPeer := [(A_PK, [1, 2])]\<rparr>)) A_PK = Some [1, 2] \<and>
   Unmarshal_Peer fixed_codec [1, 2] = Inl ''unexpected EOF'' \<and>
   GetPeer fixed_codec (empty_db\<lparr>bucketPeer := [(A_PK, [1, 2])]\<rparr>) A_PK = Inl (ProtoErr ''unexpected EOF'')"
proof -
  have g: "bucket_Get (bucketPeer (empty_db\<lparr>bucketPeer := [(A_PK, [1, 2])]\<rparr>)) A_PK = Some [1, 2]"
    by (simp add: bucket_Get_def)
  have u: "Unmarshal_Peer fixed_codec [1, 2] = Inl ''unexpected EOF''"
    by (simp add: fixed_codec_def)
  show ?thesis
    using C8_decode_error_is_returned [OF g u] g u by simp
qed

text \<open>
  C3.  \<^verbatim>\<open>GetPeer\<close> on a public key without an identity record
  returns \<^verbatim>\<open>ErrPeerNotFound\<close>; \<^verbatim>\<open>OpenKVForPeer\<close> on a key that has an identity
  record and no storage binding returns \<^verbatim>\<open>ErrNoStorageForPeer\<close>, which is a
  different value
\<close>

theorem C3_not_found_distinction:
  "(bucket_Get (bucketPeer d) pub = None \<longrightarrow> GetPeer c d pub = Inl ErrPeerNotFound) \<and>
   (bucket_Get (bucketPeer d) pub \<noteq> None \<and> bucket_Get (bucketPeerStorage d) pub = None \<longrightarrow>
      OpenKVForPeer c openStorage kvmulti_New d pub = Inl ErrNoStorageForPeer \<and>
      OpenKVForPeer c openStorage kvmulti_New d pub \<noteq> Inl ErrPeerNotFound) \<and>
   ErrNoStorageForPeer \<noteq> ErrPeerNotFound"
  by (simp add: GetPeer_def DB_View_def findPeer_def OpenKVForPeer_def find_storage_def)

theorem C3_not_found_distinction_witness:
  "bucket_Get (bucketPeer empty_db) B_PK = None \<and>
   GetPeer fixed_codec empty_db B_PK = Inl ErrPeerNotFound \<and>
   bucket_Get (bucketPeer (empty_db\<lparr>bucketPeer := [(A_PK, PutUint32 1)]\<rparr>)) A_PK \<noteq> None \<and>
   bucket_Get (bucketPeerStorage (empty_db\<lparr>bucketPeer := [(A_PK, PutUint32 1)]\<rparr>)) A_PK = None \<and>
   OpenKVForPeer fixed_codec one_backend sum_list (empty_db\<lparr>bucketPeer := [(A_PK, PutUint32 1)]\<rparr>) A_PK
     = Inl ErrNoStorageForPeer"
  using C3_not_found_distinction [of empty_db B_PK fixed_codec one_backend sum_list]
    C3_not_found_distinction [of "empty_db\<lparr>bucketPeer := [(A_PK, PutUint32 1)]\<rparr>" A_PK fixed_codec one_backend sum_list]
  by (simp add: bucket_Get_def empty_db_def)

text \<open>
  C4.  When the identity record of a public key exists (and decodes),
  \<^verbatim>\<open>MakePeer\<close> returns the record that \<^verbatim>\<open>GetPeer\<close> returns, with the stored id
  and the key, and leaves the store as it was
\<close>

theorem C4_MakePeer_existing:
  "bucket_Get (bucketPeer d) pub = Some val \<Longrightarrow> Unmarshal_Peer c val = Inr i \<Longrightarrow>
     GetPeer c d pub = Inr \<lparr>ID = i, Pub = pub\<rparr> \<and>
     MakePeer c d pub = (GetPeer c d pub, d)"
  by (simp add: MakePeer_def GetPeer_def DB_View_def findPeer_def)

theorem C4_MakePeer_existing_witness:
  "bucket_Get (bucketPeer db_A) A_PK = Some (PutUint32 1) \<and>
   Unmarshal_Peer fixed_codec (PutUint32 1) = Inr 1 \<and>
   GetPeer fixed_codec db_A A_PK = Inr \<lparr>ID = 1, Pub = A_PK\<rparr> \<and>
   MakePeer fixed_codec db_A A_PK = (GetPeer fixed_codec db_A A_PK, db_A)"
proof -
  have g: "bucket_Get (bucketPeer db_A) A_PK = Some (PutUint32 1)"
    by (simp add: bucket_Get_def db_A_def)
  have u: "Unmarshal_Peer fixed_codec (PutUint32 1) = Inr 1"
    by (simp add: fixed_codec_def Uint32_PutUint32)
  from C4_MakePeer_existing [OF g u] g u show ?thesis
    by blast
qed

text \<open>
  C7.  When the storage binding of a public key names at least one backend that
  fails to open, \<^verbatim>\<open>OpenKVForPeer\<close> returns the error of the first such backend in
  the order of iteration, and no merged handle.
\<close>

theorem C7_first_failure_aborts:
  assumes "bucket_Get (bucketPeerStorage d) pub = Some val"
    and "Unmarshal_PeerStorage c val = Inr backends"
    and "\<exists>b\<in>set backends. isl (openStorage b)"
  shows "\<exists>b err. find (\<lambda>b. isl (openStorage b)) backends = Some b \<and> openStorage b = Inl err \<and>
           OpenKVForPeer c openStorage kvmulti_New d pub = Inl err \<and>
           (\<forall>h. OpenKVForPeer c openStorage kvmulti_New d pub \<noteq> Inr h)"
proof -
  obtain b where b: "find (\<lambda>b. isl (openStorage b)) backends = Some b"
    using assms(3) by (rule find_failing_backend)
  then have "isl (openStorage b)"
    by (auto simp add: find_Some_iff)
  then obtain err where err: "openStorage b = Inl err"
    by (cases "openStorage b") auto
  have "open_backends openStorage backends [] = Inl err"
    using open_backends_first_failure [OF b, of "[]"] err by simp
  then have "OpenKVForPeer c openStorage kvmulti_New d pub = Inl err"
    using OpenKVForPeer_bound [OF assms(1,2), of openStorage kvmulti_New] by simp
  with b err show ?thesis by auto
qed

theorem C7_first_failure_aborts_witness:
  "bucket_Get (bucketPeerStorage db_S) A_PK = Some [1, 2] \<and>
   Unmarshal_PeerStorage fixed_codec [1, 2] = Inr [[1], [2]] \<and>
   (\<exists>b\<in>set [[1], [2]]. isl (one_backend b)) \<and>
   (\<exists>b err. find (\<lambda>b. isl (one_backend b)) [[1], [2]] = Some b \<and> one_backend b = Inl err \<and>
      OpenKVForPeer fixed_codec one_backend sum_list db_S A_PK = Inl err \<and>
      (\<forall>h. OpenKVForPeer fixed_codec one_backend sum_list db_S A_PK \<noteq> Inr h))"
proof -
  have g: "bucket_Get (bucketPeerStorage db_S) A_PK = Some [1, 2]"
    by (simp add: bucket_Get_def db_S_def)
  have u: "Unmarshal_PeerStorage fixed_codec [1, 2] = Inr [[1], [2]]"
    by (simp add: fixed_codec_def)
  have e: "\<exists>b\<in>set [[1], [2]]. isl (one_backend b)"
    by (simp add: one_backend_def)
  from C7_first_failure_aborts [OF g u e, of sum_list] g u e show ?thesis
    by blast
qed

text \<open>
  C9.  A storage binding that is present and names no backend makes
  \<^verbatim>\<open>OpenKVForPeer\<close> succeed with \<^verbatim>\<open>kvmulti.New()\<close> over no store; an absent
  binding gives \<^verbatim>\<open>ErrNoStorageForPeer\<close>, and when no backend opener returns that
  error itself, only an absent binding gives it.
\<close>

theorem C9_empty_binding:
  "(bucket_Get (bucketPeerStorage d) pub = Some val \<and> Unmarshal_PeerStorage c val = Inr [] \<longrightarrow>
      OpenKVForPeer c openStorage kvmulti_New d pub = Inr (kvmulti_New [])) \<and>
   (bucket_Get (bucketPeerStorage d) pub = None \<longrightarrow>
      OpenKVForPeer c openStorage kvmulti_New d pub = Inl ErrNoStorageForPeer) \<and>
   ((\<forall>backend. openStorage backend \<noteq> Inl ErrNoStorageForPeer) \<and>
    OpenKVForPeer c openStorage kvmulti_New d pub = Inl ErrNoStorageForPeer \<longrightarrow>
      bucket_Get (bucketPeerStorage d) pub = None)"
proof (intro conjI impI)
  assume "bucket_Get (bucketPeerStorage d) pub = Some val \<and> Unmarshal_PeerStorage c val = Inr []"
  then show "OpenKVForPeer c openStorage kvmulti_New d pub = Inr (kvmulti_New [])"
    using OpenKVForPeer_bound [of d pub val c "[]" openStorage kvmulti_New] by simp
next
  assume "bucket_Get (bucketPeerStorage d) pub = None"
  then show "OpenKVForPeer c openStorage kvmulti_New d pub = Inl ErrNoStorageForPeer"
    by (rule OpenKVForPeer_unbound)
next
  assume a: "(\<forall>backend. openStorage backend \<noteq> Inl ErrNoStorageForPeer) \<and>
    OpenKVForPeer c openStorage kvmulti_New d pub = Inl ErrNoStorageForPeer"
  show "bucket_Get (bucketPeerStorage d) pub = None"
  proof (rule ccontr)
    assume "bucket_Get (bucketPeerStorage d) pub \<noteq> None"
    then obtain val' where v: "bucket_Get (bucketPeerStorage d) pub = Some val'" by auto
    show False
    proof (cases "Unmarshal_PeerStorage c val'")
      case (Inl perr)
      with v a show False
        by (simp add: OpenKVForPeer_def DB_View_def find_storage_def)
    next
      case (Inr backends)
      from a OpenKVForPeer_bound [OF v Inr, of openStorage kvmulti_New]
      have "open_backends openStorage backends [] = Inl ErrNoStorageForPeer"
        by (auto split: sum.splits)
      then obtain b where "openStorage b = Inl ErrNoStorageForPeer"
        using open_backends_Inl by blast
      with a show False by blast
    qed
  qed
qed

theorem C9_empty_binding_witness:
  "bucket_Get (bucketPeerStorage db_E) A_PK = Some [] \<and>
   Unmarshal_PeerStorage fixed_codec [] = Inr [] \<and>
   OpenKVForPeer fixed_codec one_backend sum_list db_E A_PK = Inr (sum_list []) \<and>
   bucket_Get (bucketPeerStorage db_A) A_PK = None \<and>
   OpenKVForPeer fixed_codec one_backend sum_list db_A A_PK = Inl ErrNoStorageForPeer \<and>
   (\<forall>backend. one_backend backend \<noteq> Inl ErrNoStorageForPeer)"
proof -
  have g: "bucket_Get (bucketPeerStorage db_E) A_PK = Some []"
    by (simp add: bucket_Get_def db_E_def)
  have u: "Unmarshal_PeerStorage fixed_codec [] = Inr []"
    by (simp add: fixed_codec_def)
  have n: "bucket_Get (bucketPeerStorage db_A) A_PK = None"
    by (simp add: bucket_Get_def db_A_def)
  have o: "\<forall>backend. one_backend backend \<noteq> Inl ErrNoStorageForPeer"
    by (simp add: one_backend_def)
  from C9_empty_binding [of db_E A_PK "[]" fixed_codec one_backend sum_list]
    C9_empty_binding [of db_A A_PK "[]" fixed_codec one_backend sum_list] g u n o
  show ?thesis by blast
qed

text \<open>
  C10.  The outcome of \<^verbatim>\<open>OpenKVForPeer\<close> is the same on two stores
  with the same storage-binding bucket, whatever their identity records; without
  a storage binding it is \<^verbatim>\<open>ErrNoStorageForPeer\<close>, registered key or not; and it
  is never \<^verbatim>\<open>ErrPeerNotFound\<close>, unless \<^verbatim>\<open>app.openStorage\<close> itself returns that
  error.
\<close>

theorem C10_storage_bucket_only:
  "(bucketPeerStorage d = bucketPeerStorage d' \<longrightarrow>
      OpenKVForPeer c openStorage kvmulti_New d pub = OpenKVForPeer c openStorage kvmulti_New d' pub) \<and>
   (bucket_Get (bucketPeerStorage d) pub = None \<longrightarrow>
      OpenKVForPeer c openStorage kvmulti_New d pub = Inl ErrNoStorageForPeer) \<and>
   ((\<forall>backend. openStorage backend \<noteq> Inl ErrPeerNotFound) \<longrightarrow>
      OpenKVForPeer c openStorage kvmulti_New d pub \<noteq> Inl ErrPeerNotFound)"
proof (intro conjI impI)
  assume "bucketPeerStorage d = bucketPeerStorage d'"
  then show "OpenKVForPeer c openStorage kvmulti_New d pub = OpenKVForPeer c openStorage kvmulti_New d' pub"
    by (simp add: OpenKVForPeer_def DB_View_def find_storage_def)
next
  assume "bucket_Get (bucketPeerStorage d) pub = None"
  then show "OpenKVForPeer c openStorage kvmulti_New d pub = Inl ErrNoStorageForPeer"
    by (rule OpenKVForPeer_unbound)
next
  assume a: "\<forall>backend. openStorage backend \<noteq> Inl ErrPeerNotFound"
  show "OpenKVForPeer c openStorage kvmulti_New d pub \<noteq> Inl ErrPeerNotFound"
  proof
    assume r: "OpenKVForPeer c openStorage kvmulti_New d pub = Inl ErrPeerNotFound"
    show False
    proof (cases "bucket_Get (bucketPeerStorage d) pub")
      case None
      with r OpenKVForPeer_unbound [OF None, of c openStorage kvmulti_New] show False by simp
    next
      case (Some val)
      show False
      proof (cases "Unmarshal_PeerStorage c val")
        case (Inl perr)
        with Some r show False
          by (simp add: OpenKVForPeer_def DB_View_def find_storage_def)
      next
        case (Inr backends)
        from r OpenKVForPeer_bound [OF Some Inr, of openStorage kvmulti_New]
        have "open_backends openStorage backends [] = Inl ErrPeerNotFound"
          by (auto split: sum.splits)
        then obtain b where "openStorage b = Inl ErrPeerNotFound"
          using open_backends_Inl by blast
        with a show False by blast
      qed
    qed
  qed
qed

theorem C10_storage_bucket_only_witness:
  "bucketPeerStorage db_A = bucketPeerStorage empty_db \<and>
   OpenKVForPeer fixed_codec one_backend sum_list db_A B_PK
     = OpenKVForPeer fixed_codec one_backend sum_list empty_db B_PK \<and>
   bucket_Get (bucketPeerStorage empty_db) B_PK = None \<and>
   bucket_Get (bucketPeer empty_db) B_PK = None \<and>
   OpenKVForPeer fixed_codec one_backend sum_list empty_db B_PK = Inl ErrNoStorageForPeer \<and>
   (\<forall>backend. one_backend backend \<noteq> Inl ErrPeerNotFound) \<and>
   OpenKVForPeer fixed_codec one_backend sum_list empty_db B_PK \<noteq> Inl ErrPeerNotFound"
proof -
  have s: "bucketPeerStorage db_A = bucketPeerStorage empty_db"
    by (simp add: db_A_def empty_db_def)
  have n: "bucket_Get (bucketPeerStorage empty_db) B_PK = None"
    by (simp add: bucket_Get_def empty_db_def)
  have m: "bucket_Get (bucketPeer empty_db) B_PK = None"
    by (simp add: bucket_Get_def empty_db_def)
  have o: "\<forall>backend. one_backend backend \<noteq> Inl ErrPeerNotFound"
    by (simp add: one_backend_def)
  from C10_storage_bucket_only [of db_A empty_db fixed_codec one_backend sum_list B_PK]
    C10_storage_bucket_only [of empty_db empty_db fixed_codec one_backend sum_list B_PK] s n m o
  show ?thesis by blast
qed

text \<open>
  C6.  Without an address binding for the public key, the lookup function of
  \<^verbatim>\<open>DialPeer\<close> returns the error "no address known for peer", and the dial
  fails with that error with no network connection attempted (the list of
  attempts is empty, so nothing was retried).
\<close>

theorem C6_dial_without_address:
  "bucket_Get (bucketPeerAddr d) pub = None \<Longrightarrow>
     lookup d pub network addr = Inl (ErrorsNew ''no address known for peer'') \<and>
     DialPeer GetTLSConfig NewPeerClient net d pub = (Inl (ErrorsNew ''no address known for peer''), [])"
  by (simp add: DialPeer_unbound lookup_unbound)

theorem C6_dial_without_address_witness:
  "bucket_Get (bucketPeerAddr db_A) A_PK = None \<and>
   DialPeer () (\<lambda>cc. cc) (\<lambda>network addr. Presents A_PK) db_A A_PK
     = (Inl (ErrorsNew ''no address known for peer''), [])"
proof -
  have n: "bucket_Get (bucketPeerAddr db_A) A_PK = None"
    by (simp add: bucket_Get_def db_A_def)
  from C6_dial_without_address [OF n, of "[]" "[]" "()" "\<lambda>cc. cc" "\<lambda>network addr. Presents A_PK"] n
  show ?thesis by blast
qed

text \<open>
  C2.  The credential that \<^verbatim>\<open>DialPeer\<close> builds expects the dialled public key
  itself, at the address stored for it: a dial returns a client only when the
  far end presented exactly that key, a far end presenting any other key makes
  the dial fail with the identity mismatch and no client, and a far end
  presenting the key gets a client.
\<close>

theorem C2_pinned_identity:
  "(\<forall>client. fst (DialPeer GetTLSConfig NewPeerClient net d pub) = Inr client \<longrightarrow>
      remote_key (conn client) = pub \<and>
      (\<exists>val. bucket_Get (bucketPeerAddr d) pub = Some val \<and> remote_addr (conn client) = val \<and>
             net (gostr ''tcp'') val = Presents pub)) \<and>
   (\<forall>val key. bucket_Get (bucketPeerAddr d) pub = Some val \<and> net (gostr ''tcp'') val = Presents key \<and>
      key \<noteq> pub \<longrightarrow>
      fst (DialPeer GetTLSConfig NewPeerClient net d pub) = Inl HandshakeIdentityMismatch) \<and>
   (\<forall>val. bucket_Get (bucketPeerAddr d) pub = Some val \<and> net (gostr ''tcp'') val = Presents pub \<longrightarrow>
      (\<exists>client. fst (DialPeer GetTLSConfig NewPeerClient net d pub) = Inr client))"
proof -
  have 1: "remote_key (conn client) = pub \<and>
      (\<exists>val. bucket_Get (bucketPeerAddr d) pub = Some val \<and> remote_addr (conn client) = val \<and>
             net (gostr ''tcp'') val = Presents pub)"
    if ok: "fst (DialPeer GetTLSConfig NewPeerClient net d pub) = Inr client" for client
  proof (cases "bucket_Get (bucketPeerAddr d) pub")
    case None
    with ok DialPeer_unbound [OF None, of GetTLSConfig NewPeerClient net] show ?thesis by simp
  next
    case (Some val)
    with ok DialPeer_bound [OF Some, of GetTLSConfig NewPeerClient net] show ?thesis
      by (cases "net (gostr ''tcp'') val") (auto split: if_splits)
  qed
  have 2: "fst (DialPeer GetTLSConfig NewPeerClient net d pub) = Inl HandshakeIdentityMismatch"
    if a: "bucket_Get (bucketPeerAddr d) pub = Some val \<and> net (gostr ''tcp'') val = Presents key \<and> key \<noteq> pub"
    for val key
  proof -
    from a have b: "bucket_Get (bucketPeerAddr d) pub = Some val" by simp
    from a DialPeer_bound [OF b, of GetTLSConfig NewPeerClient net] show ?thesis by simp
  qed
  have 3: "\<exists>client. fst (DialPeer GetTLSConfig NewPeerClient net d pub) = Inr client"
    if a: "bucket_Get (bucketPeerAddr d) pub = Some val \<and> net (gostr ''tcp'') val = Presents pub"
    for val
  proof -
    from a have b: "bucket_Get (bucketPeerAddr d) pub = Some val" by simp
    from a DialPeer_bound [OF b, of GetTLSConfig NewPeerClient net] show ?thesis by simp
  qed
  from 1 2 3 show ?thesis by blast
qed

theorem C2_pinned_identity_witness:
  "bucket_Get (bucketPeerAddr db_addr) A_PK = Some (gostr ''192.0.2.1:443'') \<and>
   B_PK \<noteq> A_PK \<and>
   fst (DialPeer () (\<lambda>cc. cc) (\<lambda>network addr. Presents B_PK) db_addr A_PK) = Inl HandshakeIdentityMismatch \<and>
   (\<exists>client. fst (DialPeer () (\<lambda>cc. cc) (\<lambda>network addr. Presents A_PK) db_addr A_PK) = Inr client)"
proof -
  have b: "bucket_Get (bucketPeerAddr db_addr) A_PK = Some (gostr ''192.0.2.1:443'')"
    by (simp add: bucket_Get_def db_addr_def)
  have ne: "B_PK \<noteq> A_PK"
    by (rule A_PK_neq_B_PK [symmetric])
  from C2_pinned_identity [of "()" "\<lambda>cc. cc" "\<lambda>network addr. Presents B_PK" db_addr A_PK]
    C2_pinned_identity [of "()" "\<lambda>cc. cc" "\<lambda>network addr. Presents A_PK" db_addr A_PK] b ne
  show ?thesis by blast
qed

text \<open>
  C1.  When \<^verbatim>\<open>MakePeer\<close> reaches the creation branch (the key has no identity
  record) on a store whose id-index holds four-byte ids in bolt's order, the
  call fails with "out of peer IDs" exactly when the largest id of the index
  plus one wraps to zero; every record it returns carries that id plus one
  (1 on an empty index); and it does return that record, writing both entries,
  when the id does not wrap and the record encodes.  Hence, from the empty
  store, two distinct keys registered in sequence get the ids 1 and 2, and
  asking again for the first key returns id 1.
\<close>

theorem C1_id_allocation:
  "(bucket_sorted (bucketPeerID d) \<and> index_keys_ok (bucketPeerID d) \<and>
    bucket_Get (bucketPeer d) pub = None \<longrightarrow>
      (fst (MakePeer c d pub) = Inl (ErrorsNew ''out of peer IDs'') \<longleftrightarrow> max_id d + 1 = 0) \<and>
      (\<forall>p. fst (MakePeer c d pub) = Inr p \<longrightarrow> p = \<lparr>ID = max_id d + 1, Pub = pub\<rparr>) \<and>
      (max_id d + 1 \<noteq> 0 \<and> length pub = PublicKeySize \<and>
       Marshal_Peer c (max_id d + 1) = Inr buf \<and> length buf \<le> MaxValueSize \<longrightarrow>
         MakePeer c d pub =
           (Inr \<lparr>ID = max_id d + 1, Pub = pub\<rparr>,
            d\<lparr>bucketPeerID := put_sorted (PutUint32 (max_id d + 1)) pub (bucketPeerID d),
              bucketPeer := put_sorted pub buf (bucketPeer d)\<rparr>))) \<and>
   (length A = PublicKeySize \<and> length B = PublicKeySize \<and> A \<noteq> B \<and>
    Marshal_Peer c 1 = Inr bufA \<and> length bufA \<le> MaxValueSize \<and>
    Marshal_Peer c 2 = Inr bufB \<and> length bufB \<le> MaxValueSize \<and>
    Unmarshal_Peer c bufA = Inr 1 \<longrightarrow>
      fst (MakePeer c empty_db A) = Inr \<lparr>ID = 1, Pub = A\<rparr> \<and>
      fst (MakePeer c (snd (MakePeer c empty_db A)) B) = Inr \<lparr>ID = 2, Pub = B\<rparr> \<and>
      fst (MakePeer c (snd (MakePeer c (snd (MakePeer c empty_db A)) B)) A) = Inr \<lparr>ID = 1, Pub = A\<rparr>)"
proof -
  have 1: "(fst (MakePeer c d pub) = Inl (ErrorsNew ''out of peer IDs'') \<longleftrightarrow> max_id d + 1 = 0) \<and>
      (\<forall>p. fst (MakePeer c d pub) = Inr p \<longrightarrow> p = \<lparr>ID = max_id d + 1, Pub = pub\<rparr>)"
    if "bucket_sorted (bucketPeerID d)" "index_keys_ok (bucketPeerID d)"
      "bucket_Get (bucketPeer d) pub = None"
    using that by (rule MakePeer_create_cases)
  have 2: "MakePeer c d pub =
           (Inr \<lparr>ID = max_id d + 1, Pub = pub\<rparr>,
            d\<lparr>bucketPeerID := put_sorted (PutUint32 (max_id d + 1)) pub (bucketPeerID d),
              bucketPeer := put_sorted pub buf (bucketPeer d)\<rparr>)"
    if "bucket_sorted (bucketPeerID d)" "index_keys_ok (bucketPeerID d)"
      "bucket_Get (bucketPeer d) pub = None" "max_id d + 1 \<noteq> 0" "length pub = PublicKeySize"
      "Marshal_Peer c (max_id d + 1) = Inr buf" "length buf \<le> MaxValueSize"
    using that by (rule MakePeer_create_ok)
  have 3: "fst (MakePeer c empty_db A) = Inr \<lparr>ID = 1, Pub = A\<rparr> \<and>
      fst (MakePeer c (snd (MakePeer c empty_db A)) B) = Inr \<lparr>ID = 2, Pub = B\<rparr> \<and>
      fst (MakePeer c (snd (MakePeer c (snd (MakePeer c empty_db A)) B)) A) = Inr \<lparr>ID = 1, Pub = A\<rparr>"
    if "length A = PublicKeySize" "length B = PublicKeySize" "A \<noteq> B"
      "Marshal_Peer c 1 = Inr bufA" "length bufA \<le> MaxValueSize"
      "Marshal_Peer c 2 = Inr bufB" "length bufB \<le> MaxValueSize"
      "Unmarshal_Peer c bufA = Inr 1"
    using that by (rule two_registrations)
  from 1 2 3 show ?thesis by blast
qed

theorem C1_id_allocation_witness:
  "bucket_sorted (bucketPeerID db_A) \<and> index_keys_ok (bucketPeerID db_A) \<and>
   bucket_Get (bucketPeer db_A) B_PK = None \<and> max_id db_A = 1 \<and>
   length B_PK = PublicKeySize \<and> Marshal_Peer fixed_codec 2 = Inr (PutUint32 2) \<and>
   length (PutUint32 2) \<le> MaxValueSize \<and>
   fst (MakePeer fixed_codec db_A B_PK) = Inr \<lparr>ID = 2, Pub = B_PK\<rparr> \<and>
   bucket_sorted (bucketPeerID db_full) \<and> index_keys_ok (bucketPeerID db_full) \<and>
   bucket_Get (bucketPeer db_full) B_PK = None \<and> max_id db_full + 1 = 0 \<and>
   fst (MakePeer fixed_codec db_full B_PK) = Inl (ErrorsNew ''out of peer IDs'') \<and>
   length A_PK = PublicKeySize \<and> A_PK \<noteq> B_PK \<and>
   Marshal_Peer fixed_codec 1 = Inr (PutUint32 1) \<and> length (PutUint32 1) \<le> MaxValueSize \<and>
   Unmarshal_Peer fixed_codec (PutUint32 1) = Inr 1 \<and>
   fst (MakePeer fixed_codec empty_db A_PK) = Inr \<lparr>ID = 1, Pub = A_PK\<rparr> \<and>
   fst (MakePeer fixed_codec (snd (MakePeer fixed_codec empty_db A_PK)) B_PK) = Inr \<lparr>ID = 2, Pub = B_PK\<rparr> \<and>
   fst (MakePeer fixed_codec (snd (MakePeer fixed_codec (snd (MakePeer fixed_codec empty_db A_PK)) B_PK)) A_PK)
     = Inr \<lparr>ID = 1, Pub = A_PK\<rparr>"
proof -
  note t1 = C1_id_allocation [where d = db_A and pub = B_PK and c = fixed_codec and buf = "PutUint32 2"
      and A = A_PK and B = B_PK and bufA = "PutUint32 1" and bufB = "PutUint32 2"]
  note t2 = C1_id_allocation [where d = db_full and pub = B_PK and c = fixed_codec and buf = "PutUint32 2"
      and A = A_PK and B = B_PK and bufA = "PutUint32 1" and bufB = "PutUint32 2"]
  have sA: "bucket_sorted (bucketPeerID db_A)"
    by (simp add: db_A_def bucket_sorted_single)
  have kA: "index_keys_ok (bucketPeerID db_A)"
    by (simp add: db_A_def index_keys_ok_single)
  have nA: "bucket_Get (bucketPeer db_A) B_PK = None"
    using A_PK_neq_B_PK by (simp add: db_A_def bucket_Get_def)
  have mA: "max_id db_A = 1"
    by (rule max_id_single) (simp add: db_A_def)
  have mA': "max_id db_A + 1 \<noteq> 0"
    by (simp add: mA)
  have lA: "length A_PK = PublicKeySize"
    by (simp add: A_PK_def PublicKeySize_def)
  have lB: "length B_PK = PublicKeySize"
    by (simp add: B_PK_def PublicKeySize_def)
  have m1: "Marshal_Peer fixed_codec 1 = Inr (PutUint32 1)"
    by (simp add: fixed_codec_def)
  have m2: "Marshal_Peer fixed_codec 2 = Inr (PutUint32 2)"
    by (simp add: fixed_codec_def)
  have m2': "Marshal_Peer fixed_codec (max_id db_A + 1) = Inr (PutUint32 2)"
    by (simp add: mA fixed_codec_def)
  have l1: "length (PutUint32 1) \<le> MaxValueSize"
    by (simp add: length_PutUint32 MaxValueSize_def)
  have l2: "length (PutUint32 2) \<le> MaxValueSize"
    by (simp add: length_PutUint32 MaxValueSize_def)
  have u1: "Unmarshal_Peer fixed_codec (PutUint32 1) = Inr 1"
    by (simp add: fixed_codec_def Uint32_PutUint32)
  have sF: "bucket_sorted (bucketPeerID db_full)"
    by (simp add: db_full_def bucket_sorted_single)
  have kF: "index_keys_ok (bucketPeerID db_full)"
    by (simp add: db_full_def index_keys_ok_single)
  have nF: "bucket_Get (bucketPeer db_full) B_PK = None"
    using A_PK_neq_B_PK by (simp add: db_full_def bucket_Get_def)
  have mF: "max_id db_full + 1 = 0"
    using max_id_single [of db_full "- 1" A_PK] by (simp add: db_full_def)
  from t1 sA kA nA mA' lB m2' l2
  have "MakePeer fixed_codec db_A B_PK =
           (Inr \<lparr>ID = max_id db_A + 1, Pub = B_PK\<rparr>,
            db_A\<lparr>bucketPeerID := put_sorted (PutUint32 (max_id db_A + 1)) B_PK (bucketPeerID db_A),
              bucketPeer := put_sorted B_PK (PutUint32 2) (bucketPeer db_A)\<rparr>)"
    by blast
  then have rA: "fst (MakePeer fixed_codec db_A B_PK) = Inr \<lparr>ID = 2, Pub = B_PK\<rparr>"
    by (simp add: mA)
  from t2 sF kF nF mF
  have rF: "fst (MakePeer fixed_codec db_full B_PK) = Inl (ErrorsNew ''out of peer IDs'')"
    by blast
  from t1 lA lB A_PK_neq_B_PK m1 m2 l1 l2 u1
  have rS: "fst (MakePeer fixed_codec empty_db A_PK) = Inr \<lparr>ID = 1, Pub = A_PK\<rparr> \<and>
   fst (MakePeer fixed_codec (snd (MakePeer fixed_codec empty_db A_PK)) B_PK) = Inr \<lparr>ID = 2, Pub = B_PK\<rparr> \<and>
   fst (MakePeer fixed_codec (snd (MakePeer fixed_codec (snd (MakePeer fixed_codec empty_db A_PK)) B_PK)) A_PK)
     = Inr \<lparr>ID = 1, Pub = A_PK\<rparr>"
    by blast
  from sA kA nA mA lB m2 l2 rA sF kF nF mF rF lA A_PK_neq_B_PK m1 l1 u1 rS
  show ?thesis by blast
qed

text \<open>
  C5.  The empty store has its two indexes in lockstep, and \<^verbatim>\<open>MakePeer\<close> keeps
  them so, whatever happens in its transaction (the codec reading back what it
  wrote): afterwards the id-index maps an id to a public key exactly when the
  identity record of that key carries that id, every key of the id-index is
  an id, and no two public keys carry the same id.
\<close>

theorem C5_indexes_in_lockstep:
  "lockstep c empty_db \<and>
   (codec_roundtrip c \<and> lockstep c d \<longrightarrow>
      lockstep c (snd (MakePeer c d pub)) \<and>
      (\<forall>i pk. bucket_Get (bucketPeerID (snd (MakePeer c d pub))) (PutUint32 i) = Some pk \<longleftrightarrow>
                record_id c (snd (MakePeer c d pub)) pk = Some i) \<and>
      (\<forall>k pk. bucket_Get (bucketPeerID (snd (MakePeer c d pub))) k = Some pk \<longrightarrow>
                (\<exists>i. k = PutUint32 i)) \<and>
      (\<forall>i pk pk'. record_id c (snd (MakePeer c d pub)) pk = Some i \<and>
                   record_id c (snd (MakePeer c d pub)) pk' = Some i \<longrightarrow> pk = pk'))"
proof -
  have "lockstep c (snd (MakePeer c d pub)) \<and>
      (\<forall>i pk. bucket_Get (bucketPeerID (snd (MakePeer c d pub))) (PutUint32 i) = Some pk \<longleftrightarrow>
                record_id c (snd (MakePeer c d pub)) pk = Some i) \<and>
      (\<forall>k pk. bucket_Get (bucketPeerID (snd (MakePeer c d pub))) k = Some pk \<longrightarrow>
                (\<exists>i. k = PutUint32 i)) \<and>
      (\<forall>i pk pk'. record_id c (snd (MakePeer c d pub)) pk = Some i \<and>
                   record_id c (snd (MakePeer c d pub)) pk' = Some i \<longrightarrow> pk = pk')"
    if r: "codec_roundtrip c" and l: "lockstep c d"
  proof -
    let ?d' = "snd (MakePeer c d pub)"
    have l': "lockstep c ?d'"
      using r l by (rule MakePeer_lockstep)
    note b = lockstep_bijection [OF l']
    have u: "pk = pk'" if "record_id c ?d' pk = Some i" "record_id c ?d' pk' = Some i" for i pk pk'
    proof -
      from that b have "bucket_Get (bucketPeerID ?d') (PutUint32 i) = Some pk"
        "bucket_Get (bucketPeerID ?d') (PutUint32 i) = Some pk'" by blast+
      then show ?thesis by simp
    qed
    from l' b u show ?thesis by blast
  qed
  with lockstep_empty_db [of c] show ?thesis by blast
qed

theorem C5_indexes_in_lockstep_witness:
  "codec_roundtrip fixed_codec \<and> lockstep fixed_codec db_A \<and>
   lockstep fixed_codec (snd (MakePeer fixed_codec db_A B_PK)) \<and>
   (\<forall>i pk. bucket_Get (bucketPeerID (snd (MakePeer fixed_codec db_A B_PK))) (PutUint32 i) = Some pk \<longleftrightarrow>
             record_id fixed_codec (snd (MakePeer fixed_codec db_A B_PK)) pk = Some i)"
proof -
  have r: "codec_roundtrip fixed_codec"
    by (auto simp add: codec_roundtrip_def fixed_codec_def Uint32_PutUint32)
  have l: "lockstep fixed_codec db_A"
    by (simp add: lockstep_def db_A_def bucket_sorted_def record_id_def bucket_Get_def
        fixed_codec_def Uint32_PutUint32)
  from C5_indexes_in_lockstep [of fixed_codec db_A B_PK] r l show ?thesis
    by blast
qed

end
